theory Spec2Isabelle
  imports Main "HOL-Library.AList"
begin

section \<open>Exceptions and results of a call\<close>

text \<open>
  \<^verbatim>\<open>UserSettingsParser.hpp\<close> throws \<^verbatim>\<open>std::runtime_error\<close> with a message built
  from a fixed text and an argument; \<^verbatim>\<open>std::stoi\<close> throws \<^verbatim>\<open>std::invalid_argument\<close>
  or \<^verbatim>\<open>std::out_of_range\<close>.
\<close>

datatype error = runtime_error string | invalid_argument | out_of_range

text \<open>
  A member function returns a value, leaves by an exception, or does not come back
  from \<^verbatim>\<open>mutex_.lock()\<close>: \<^verbatim>\<open>mutex_\<close> is a \<^verbatim>\<open>std::mutex\<close>, not a recursive one, and
  locking it again from the thread that owns it is undefined behaviour in C++ (a
  pthread mutex waits for ever). That third result is \<open>Deadlock\<close>.
\<close>

datatype 'a outcome = Returns 'a | Throws error | Deadlock

section \<open>The object\<close>

text \<open>
  The private members \<^verbatim>\<open>settings_\<close>, \<^verbatim>\<open>mutex_\<close> and \<^verbatim>\<open>currentFilename_\<close> of lines 159 to
  161; the fields drop the final underscore, which a name cannot end with here.
  \<open>settings\<close> is the \<^verbatim>\<open>std::unordered_map<std::string, std::string>\<close>, kept as the
  list of its entries in iteration order, one entry per key. The standard does not fix
  that order, so no result below depends on it: results are about
  \<open>map_of (settings st)\<close>, for every order of the entries.
  \<^verbatim>\<open>settings_[key] = value\<close> is \<open>AList.update key value\<close>. \<open>mutex\<close> is \<open>True\<close> while the
  calling thread holds the mutex.
\<close>

record UserSettingsParser =
  settings :: "(string \<times> string) list"
  mutex :: bool
  currentFilename :: string

text \<open>The default-constructed instance that \<^verbatim>\<open>getInstance\<close> returns first.\<close>

definition getInstance :: UserSettingsParser where
  "getInstance = \<lparr>settings = [], mutex = False, currentFilename = []\<rparr>"

text \<open>
  \<^verbatim>\<open>std::lock_guard<std::mutex> lock(mutex_);\<close> followed by the rest of the function
  body: the constructor locks, the destructor unlocks when the body returns or throws.
\<close>

definition lock_guard ::
  "UserSettingsParser \<Rightarrow> (UserSettingsParser \<Rightarrow> 'a outcome \<times> UserSettingsParser)
     \<Rightarrow> 'a outcome \<times> UserSettingsParser" where
  "lock_guard st body =
     (if mutex st then (Deadlock, st)
      else case body (st\<lparr>mutex := True\<rparr>) of
             (Deadlock, st') \<Rightarrow> (Deadlock, st')
           | (r, st') \<Rightarrow> (r, st'\<lparr>mutex := False\<rparr>))"

section \<open>Files and input streams\<close>

text \<open>
  The files the process can reach: \<open>contents fs p\<close> is the text an \<^verbatim>\<open>std::ifstream\<close> on
  \<open>p\<close> reads (\<open>None\<close> when it does not open), \<open>writable fs p\<close> says whether an
  \<^verbatim>\<open>std::ofstream\<close> on \<open>p\<close> opens. An \<^verbatim>\<open>ofstream\<close> truncates the file; the source does
  not test the stream after writing, so a write to an open file is taken to succeed.
\<close>

record filesystem =
  contents :: "string \<rightharpoonup> string"
  writable :: "string \<Rightarrow> bool"

text \<open>
  An input stream (\<^verbatim>\<open>std::ifstream\<close>, \<^verbatim>\<open>std::istringstream\<close>): the characters not yet
  read and the two state bits the source depends on.
\<close>

record istream =
  buf :: string
  eofbit :: bool
  failbit :: bool

definition istream_of :: "string \<Rightarrow> istream" where
  "istream_of s = \<lparr>buf = s, eofbit = False, failbit = False\<rparr>"

text \<open>
  The extraction loop of \<^verbatim>\<open>std::getline\<close>: characters up to the delimiter, which is
  removed from the stream and not stored, or up to the end of the input. The second
  component is what remains after the delimiter, \<open>None\<close> when the end was reached.
\<close>

fun getline_chars :: "char \<Rightarrow> string \<Rightarrow> string \<times> string option" where
  "getline_chars delim [] = ([], None)"
| "getline_chars delim (c # cs) =
     (if c = delim then ([], Some cs)
      else case getline_chars delim cs of (s, r) \<Rightarrow> (c # s, r))"

text \<open>
  \<^verbatim>\<open>std::getline(strm, str, delim)\<close>, C++ standard [string.io]. On a stream that is not
  good the sentry fails: \<open>failbit\<close> is set and \<open>str\<close> is left as it was. Otherwise
  \<open>str\<close> is erased and filled; reaching the end of input sets \<open>eofbit\<close>, and
  \<open>failbit\<close> is set when nothing was extracted, not even a delimiter. The condition
  of an \<^verbatim>\<open>if\<close> or \<^verbatim>\<open>while\<close> on the returned stream is \<open>\<not> failbit\<close>.
\<close>

definition getline :: "istream \<Rightarrow> string \<Rightarrow> char \<Rightarrow> string \<times> istream" where
  "getline strm str delim =
     (if eofbit strm \<or> failbit strm then (str, strm\<lparr>failbit := True\<rparr>)
      else case getline_chars delim (buf strm) of
             (s, Some rest) \<Rightarrow> (s, strm\<lparr>buf := rest\<rparr>)
           | (s, None) \<Rightarrow> (s, strm\<lparr>buf := [], eofbit := True, failbit := (s = [])\<rparr>))"

section \<open>loadSettings\<close>

text \<open>Lines 64 to 68, the body of the \<^verbatim>\<open>while\<close> loop for one line of the file.\<close>

definition loadSettings_body ::
  "string \<Rightarrow> (string \<times> string) list \<Rightarrow> (string \<times> string) list" where
  "loadSettings_body line m =
     (case getline (istream_of line) [] (CHR ''='') of (key, iss) \<Rightarrow>
        if failbit iss then m
        else case getline iss [] (CHR 0x0A) of (val, iss') \<Rightarrow>
          if failbit iss' then m
          else AList.update key val m)"

text \<open>Lines 63 to 69: \<^verbatim>\<open>while (std::getline(file, line)) { ... }\<close>.\<close>

function loadSettings_loop ::
  "istream \<Rightarrow> string \<Rightarrow> (string \<times> string) list \<Rightarrow> (string \<times> string) list" where
  "loadSettings_loop file line m =
     (case getline file line (CHR 0x0A) of (line', file') \<Rightarrow>
        if failbit file' then m
        else loadSettings_loop file' line' (loadSettings_body line' m))"
  by pat_completeness auto

termination loadSettings_loop
proof -
  have rest_shorter: "length rest < length cs"
    if "getline_chars delim cs = (s, Some rest)" for delim cs s rest
    using that by (induction cs arbitrary: s) (auto split: if_splits prod.splits)
  have to_end: "s = cs" if "getline_chars delim cs = (s, None)" for delim cs s
    using that by (induction cs arbitrary: s) (auto split: if_splits prod.splits)
  have consumes: "length (buf strm') < length (buf strm)"
    if g: "getline strm str delim = (s, strm')" and ok: "\<not> failbit strm'"
    for strm str delim s strm'
  proof (cases "eofbit strm \<or> failbit strm")
    case True
    with g ok show ?thesis by (auto simp: getline_def)
  next
    case False
    obtain t r where e: "getline_chars delim (buf strm) = (t, r)"
      by (cases "getline_chars delim (buf strm)")
    show ?thesis
    proof (cases r)
      case None
      with e have "t = buf strm" by (simp add: to_end)
      with g ok False e None show ?thesis by (auto simp: getline_def)
    next
      case (Some rest)
      with e have "length rest < length (buf strm)" by (simp add: rest_shorter)
      with g ok False e Some show ?thesis by (auto simp: getline_def)
    qed
  qed
  show ?thesis
    by (relation "measure (\<lambda>(file, line, m). length (buf file))")
       (auto dest: consumes [OF sym])
qed

declare loadSettings_loop.simps [simp del]

text \<open>Lines 55 to 72.\<close>

definition loadSettings ::
  "UserSettingsParser \<Rightarrow> string \<Rightarrow> filesystem \<Rightarrow> unit outcome \<times> UserSettingsParser" where
  "loadSettings st filename fs =
     lock_guard st (\<lambda>st.
       case contents fs filename of
         None \<Rightarrow> (Throws (runtime_error (''Unable to open settings file: '' @ filename)), st)
       | Some text \<Rightarrow>
           (Returns (),
            st\<lparr>settings := loadSettings_loop (istream_of text) [] (settings st),
               currentFilename := filename\<rparr>))"

section \<open>getValue and setValue\<close>

text \<open>Lines 80 to 88.\<close>

definition getValue :: "UserSettingsParser \<Rightarrow> string \<Rightarrow> string outcome \<times> UserSettingsParser" where
  "getValue st key =
     lock_guard st (\<lambda>st.
       case map_of (settings st) key of
         Some v \<Rightarrow> (Returns v, st)
       | None \<Rightarrow> (Throws (runtime_error (''Setting not found: '' @ key)), st))"

text \<open>Lines 107 to 110.\<close>

definition setValue ::
  "UserSettingsParser \<Rightarrow> string \<Rightarrow> string \<Rightarrow> unit outcome \<times> UserSettingsParser" where
  "setValue st key val =
     lock_guard st (\<lambda>st. (Returns (), st\<lparr>settings := AList.update key val (settings st)\<rparr>))"

section \<open>saveSettings and saveSettingsAs\<close>

text \<open>Lines 147 to 149, the text that the \<^verbatim>\<open>for\<close> loop sends to the file.\<close>

fun write_settings :: "(string \<times> string) list \<Rightarrow> string" where
  "write_settings [] = []"
| "write_settings ((k, v) # rest) = k @ ''='' @ v @ [CHR 0x0A] @ write_settings rest"

text \<open>Lines 140 to 151. The value returned is the file system after the call.\<close>

definition saveSettingsAs ::
  "UserSettingsParser \<Rightarrow> string \<Rightarrow> filesystem \<Rightarrow> filesystem outcome \<times> UserSettingsParser" where
  "saveSettingsAs st filename fs =
     lock_guard st (\<lambda>st.
       if \<not> writable fs filename
       then (Throws (runtime_error (''Unable to open settings file: '' @ filename)), st)
       else (Returns (fs\<lparr>contents := (contents fs)(filename \<mapsto> write_settings (settings st))\<rparr>),
             st))"

text \<open>
  Lines 127 to 133. \<^verbatim>\<open>saveSettingsAs\<close> is called while \<^verbatim>\<open>mutex_\<close> is held by the
  \<^verbatim>\<open>lock_guard\<close> of line 128.
\<close>

definition saveSettings ::
  "UserSettingsParser \<Rightarrow> filesystem \<Rightarrow> filesystem outcome \<times> UserSettingsParser" where
  "saveSettings st fs =
     lock_guard st (\<lambda>st.
       if currentFilename st = []
       then (Throws (runtime_error ''No filename specified for saving settings.''), st)
       else saveSettingsAs st (currentFilename st) fs)"

section \<open>Typed access\<close>

text \<open>
  \<^verbatim>\<open>std::stoi(str)\<close> is the standard library's, not this repository's; it is written
  here from the C++ standard ([string.conversions]) and the C standard's \<^verbatim>\<open>strtol\<close>
  with base 10 in the "C" locale, which it calls on \<^verbatim>\<open>str.c_str()\<close>: white space is
  skipped, an optional sign and the longest run of decimal digits are read, and what
  follows is ignored. \<^verbatim>\<open>std::invalid_argument\<close> is thrown when there is no digit to
  read, \<^verbatim>\<open>std::out_of_range\<close> when the value does not fit an \<^verbatim>\<open>int\<close>, taken to be 32
  bits wide.
\<close>

definition isspace :: "char \<Rightarrow> bool" where
  "isspace c = (c = CHR '' '' \<or> c = CHR 0x09 \<or> c = CHR 0x0A \<or> c = CHR 0x0B
                \<or> c = CHR 0x0C \<or> c = CHR 0x0D)"

definition isdigit :: "char \<Rightarrow> bool" where
  "isdigit c = (48 \<le> (of_char c :: nat) \<and> (of_char c :: nat) \<le> 57)"

definition digits_value :: "string \<Rightarrow> int" where
  "digits_value ds = foldl (\<lambda>acc c. 10 * acc + (int (of_char c) - 48)) 0 ds"

text \<open>The last step: the value of the sign and digits read, or the range error.\<close>

definition stoi_range :: "bool \<Rightarrow> string \<Rightarrow> error + int" where
  "stoi_range neg ds =
     (let v = (if neg then - digits_value ds else digits_value ds)
      in if v < - 2147483648 \<or> 2147483647 < v then Inl out_of_range else Inr v)"

definition stoi :: "string \<Rightarrow> error + int" where
  "stoi str =
     (let s = dropWhile isspace str;
          neg = (case s of [] \<Rightarrow> False | c # cs \<Rightarrow> c = CHR ''-'');
          s' = (case s of [] \<Rightarrow> []
                | c # cs \<Rightarrow> if c = CHR ''-'' \<or> c = CHR ''+'' then cs else s);
          ds = takeWhile isdigit s'
      in if ds = [] then Inl invalid_argument else stoi_range neg ds)"

text \<open>Lines 164 to 167: \<^verbatim>\<open>return std::stoi(getValue(key));\<close>\<close>

definition getValueAs_int :: "UserSettingsParser \<Rightarrow> string \<Rightarrow> int outcome \<times> UserSettingsParser" where
  "getValueAs_int st key =
     (case getValue st key of
        (Returns s, st') \<Rightarrow> (case stoi s of Inl e \<Rightarrow> (Throws e, st') | Inr n \<Rightarrow> (Returns n, st'))
      | (Throws e, st') \<Rightarrow> (Throws e, st')
      | (Deadlock, st') \<Rightarrow> (Deadlock, st'))"

text \<open>
  Lines 169 to 172: \<^verbatim>\<open>return std::stod(getValue(key));\<close>. Floating point is outside
  this development, so \<^verbatim>\<open>std::stod\<close> is a parameter.
\<close>

definition getValueAs_double ::
  "(string \<Rightarrow> error + 'd) \<Rightarrow> UserSettingsParser \<Rightarrow> string \<Rightarrow> 'd outcome \<times> UserSettingsParser" where
  "getValueAs_double stod st key =
     (case getValue st key of
        (Returns s, st') \<Rightarrow> (case stod s of Inl e \<Rightarrow> (Throws e, st') | Inr x \<Rightarrow> (Returns x, st'))
      | (Throws e, st') \<Rightarrow> (Throws e, st')
      | (Deadlock, st') \<Rightarrow> (Deadlock, st'))"

text \<open>Lines 174 to 178.\<close>

definition getValueAs_bool :: "UserSettingsParser \<Rightarrow> string \<Rightarrow> bool outcome \<times> UserSettingsParser" where
  "getValueAs_bool st key =
     (case getValue st key of
        (Returns v, st') \<Rightarrow> (Returns (v = ''true'' \<or> v = ''1''), st')
      | (Throws e, st') \<Rightarrow> (Throws e, st')
      | (Deadlock, st') \<Rightarrow> (Deadlock, st'))"

text \<open>Lines 190 to 193.\<close>

definition setValueAs_bool ::
  "UserSettingsParser \<Rightarrow> string \<Rightarrow> bool \<Rightarrow> unit outcome \<times> UserSettingsParser" where
  "setValueAs_bool st key b = setValue st key (if b then ''true'' else ''false'')"

section \<open>The error kinds of the specification\<close>

text \<open>
  The specification names four kinds of error. The source throws
  \<^verbatim>\<open>std::runtime_error\<close> for three of them, told apart by the message, and leaves the
  fourth to \<^verbatim>\<open>std::stoi\<close>.
\<close>

definition IOError :: "string \<Rightarrow> error" where
  "IOError filename = runtime_error (''Unable to open settings file: '' @ filename)"

definition NotFoundError :: "string \<Rightarrow> error" where
  "NotFoundError key = runtime_error (''Setting not found: '' @ key)"

definition StateError :: error where
  "StateError = runtime_error ''No filename specified for saving settings.''"

definition ConversionError :: "error \<Rightarrow> bool" where
  "ConversionError e = (e = invalid_argument \<or> e = out_of_range)"

section \<open>The file format in the words of the specification\<close>

text \<open>
  The specification describes the file as lines of the form \<^verbatim>\<open>key=value\<close>: the key is
  everything before the first \<^verbatim>\<open>=\<close> of the line, the value everything after it, and a
  line without \<^verbatim>\<open>=\<close> or with nothing after it is ignored. These three definitions
  follow that description, not the source; the loop of \<^verbatim>\<open>loadSettings\<close> is compared
  with them below.
\<close>

text \<open>The text cut at every newline.\<close>

fun spec_lines :: "string \<Rightarrow> string list" where
  "spec_lines [] = [[]]"
| "spec_lines (c # cs) =
     (if c = CHR 0x0A then [] # spec_lines cs
      else case spec_lines cs of [] \<Rightarrow> [[c]] | l # ls \<Rightarrow> (c # l) # ls)"

text \<open>The pair a line stands for, \<open>None\<close> when the line is ignored.\<close>

definition spec_line_pair :: "string \<Rightarrow> (string \<times> string) option" where
  "spec_line_pair l =
     (if CHR ''='' \<in> set l
      then (let k = takeWhile (\<lambda>c. c \<noteq> CHR ''='') l;
                v = tl (dropWhile (\<lambda>c. c \<noteq> CHR ''='') l)
            in if v = [] then None else Some (k, v))
      else None)"

text \<open>The pairs of a file, in the order of its lines.\<close>

definition spec_file_pairs :: "string \<Rightarrow> (string \<times> string) list" where
  "spec_file_pairs text = List.map_filter spec_line_pair (spec_lines text)"

text \<open>
  "A valid base-10 integer" in the words of the specification: an optional sign and one
  or more decimal digits, nothing else; and the integer such a numeral denotes.
\<close>

definition spec_valid_int :: "string \<Rightarrow> bool" where
  "spec_valid_int s =
     (case s of
        [] \<Rightarrow> False
      | c # cs \<Rightarrow> if c = CHR ''-'' \<or> c = CHR ''+'' then cs \<noteq> [] \<and> list_all isdigit cs
                  else list_all isdigit s)"

definition spec_int_value :: "string \<Rightarrow> int" where
  "spec_int_value s =
     (case s of
        [] \<Rightarrow> 0
      | c # cs \<Rightarrow> if c = CHR ''-'' then - digits_value cs
                  else if c = CHR ''+'' then digits_value cs
                  else digits_value s)"

section \<open>The loop of loadSettings reads the lines of the file\<close>

lemma getline_chars_eq:
  "getline_chars d cs =
     (takeWhile (\<lambda>c. c \<noteq> d) cs,
      if d \<in> set cs then Some (tl (dropWhile (\<lambda>c. c \<noteq> d) cs)) else None)"
  by (induction cs) auto

lemma spec_lines_not_Nil: "spec_lines cs \<noteq> []"
  by (induction cs) (auto split: list.splits)

lemma spec_lines_no_newline: "CHR 0x0A \<notin> set cs \<Longrightarrow> spec_lines cs = [cs]"
  by (induction cs) auto

lemma spec_lines_newline:
  "CHR 0x0A \<in> set cs \<Longrightarrow>
     spec_lines cs = takeWhile (\<lambda>c. c \<noteq> CHR 0x0A) cs
                     # spec_lines (tl (dropWhile (\<lambda>c. c \<noteq> CHR 0x0A) cs))"
proof (induction cs)
  case Nil
  then show ?case by simp
next
  case (Cons c cs)
  show ?case
  proof (cases "c = CHR 0x0A")
    case True
    then show ?thesis by simp
  next
    case False
    with Cons.prems have "CHR 0x0A \<in> set cs" by simp
    with Cons.IH False show ?thesis by simp
  qed
qed

lemma spec_lines_append_newline:
  "CHR 0x0A \<notin> set l \<Longrightarrow> spec_lines (l @ CHR 0x0A # rest) = l # spec_lines rest"
  by (induction l) auto

lemma spec_lines_free_of_newline: "l \<in> set (spec_lines cs) \<Longrightarrow> CHR 0x0A \<notin> set l"
proof (induction cs arbitrary: l)
  case Nil
  then show ?case by simp
next
  case (Cons c cs)
  then show ?case
    by (cases "spec_lines cs") (auto split: if_splits)
qed

lemma takeWhile_no_delim: "d \<notin> set cs \<Longrightarrow> takeWhile (\<lambda>c. c \<noteq> d) cs = cs"
  by (induction cs) auto

lemma set_tl_dropWhile: "x \<in> set (tl (dropWhile P cs)) \<Longrightarrow> x \<in> set cs"
  by (induction cs) (auto split: if_splits)

lemma getline_at_delim:
  assumes "\<not> eofbit strm" and "\<not> failbit strm" and "d \<in> set (buf strm)"
  shows "getline strm str d
           = (takeWhile (\<lambda>c. c \<noteq> d) (buf strm),
              strm\<lparr>buf := tl (dropWhile (\<lambda>c. c \<noteq> d) (buf strm))\<rparr>)"
  using assms by (simp add: getline_def getline_chars_eq)

lemma getline_at_end:
  assumes "\<not> eofbit strm" and "\<not> failbit strm" and "d \<notin> set (buf strm)"
  shows "getline strm str d
           = (buf strm, strm\<lparr>buf := [], eofbit := True, failbit := (buf strm = [])\<rparr>)"
  using assms by (simp add: getline_def getline_chars_eq takeWhile_no_delim)

lemma getline_not_good:
  "eofbit strm \<or> failbit strm \<Longrightarrow> getline strm str d = (str, strm\<lparr>failbit := True\<rparr>)"
  by (simp add: getline_def)

lemma loadSettings_body_eq:
  assumes "CHR 0x0A \<notin> set l"
  shows "loadSettings_body l m =
           (case spec_line_pair l of None \<Rightarrow> m | Some (k, v) \<Rightarrow> AList.update k v m)"
proof (cases "CHR ''='' \<in> set l")
  case False
  then have g: "getline (istream_of l) [] (CHR ''='')
                  = (l, \<lparr>buf = [], eofbit = True, failbit = (l = [])\<rparr>)"
    using getline_at_end [of "istream_of l" "CHR ''=''" "[]"] by (simp add: istream_of_def)
  have "loadSettings_body l m = m"
    unfolding loadSettings_body_def g by (simp add: getline_not_good)
  moreover from False have "spec_line_pair l = None" by (simp add: spec_line_pair_def)
  ultimately show ?thesis by simp
next
  case True
  define k where "k = takeWhile (\<lambda>c. c \<noteq> CHR ''='') l"
  define v where "v = tl (dropWhile (\<lambda>c. c \<noteq> CHR ''='') l)"
  from assms have nl: "CHR 0x0A \<notin> set v"
    unfolding v_def by (blast dest: set_tl_dropWhile)
  have g1: "getline (istream_of l) [] (CHR ''='')
              = (k, \<lparr>buf = v, eofbit = False, failbit = False\<rparr>)"
    using True getline_at_delim [of "istream_of l" "CHR ''=''" "[]"]
    by (simp add: istream_of_def k_def v_def)
  have g2: "getline \<lparr>buf = v, eofbit = False, failbit = False\<rparr> [] (CHR 0x0A)
              = (v, \<lparr>buf = [], eofbit = True, failbit = (v = [])\<rparr>)"
    using nl getline_at_end [of "\<lparr>buf = v, eofbit = False, failbit = False\<rparr>" "CHR 0x0A" "[]"]
    by simp
  have "loadSettings_body l m = (if v = [] then m else AList.update k v m)"
    unfolding loadSettings_body_def g1 by (simp add: g2)
  moreover from True have "spec_line_pair l = (if v = [] then None else Some (k, v))"
    by (simp add: spec_line_pair_def k_def v_def)
  ultimately show ?thesis by simp
qed

lemma loadSettings_loop_stopped:
  "eofbit strm \<or> failbit strm \<Longrightarrow> loadSettings_loop strm ln m = m"
  by (subst loadSettings_loop.simps) (auto simp: getline_def)

lemma loadSettings_loop_lines:
  "\<not> eofbit strm \<Longrightarrow> \<not> failbit strm \<Longrightarrow>
     loadSettings_loop strm ln m = fold loadSettings_body (spec_lines (buf strm)) m"
proof (induction strm ln m rule: loadSettings_loop.induct)
  case (1 strm ln m)
  show ?case
  proof (cases "CHR 0x0A \<in> set (buf strm)")
    case True
    define rest where "rest = tl (dropWhile (\<lambda>c. c \<noteq> CHR 0x0A) (buf strm))"
    define l where "l = takeWhile (\<lambda>c. c \<noteq> CHR 0x0A) (buf strm)"
    have g: "getline strm ln (CHR 0x0A) = (l, strm\<lparr>buf := rest\<rparr>)"
      using "1.prems" True by (simp add: getline_at_delim l_def rest_def)
    have "loadSettings_loop strm ln m
            = loadSettings_loop (strm\<lparr>buf := rest\<rparr>) l (loadSettings_body l m)"
      using g "1.prems" by (subst loadSettings_loop.simps) simp
    also have "\<dots> = fold loadSettings_body (spec_lines rest) (loadSettings_body l m)"
      using "1.IH" [OF g [symmetric]] "1.prems" by simp
    also have "\<dots> = fold loadSettings_body (spec_lines (buf strm)) m"
      using True by (simp add: spec_lines_newline l_def rest_def)
    finally show ?thesis .
  next
    case False
    show ?thesis
    proof (cases "buf strm = []")
      case True
      with "1.prems" show ?thesis
        by (subst loadSettings_loop.simps)
           (simp add: getline_def loadSettings_body_def istream_of_def)
    next
      case nonempty: False
      have g: "getline strm ln (CHR 0x0A)
                 = (buf strm, strm\<lparr>buf := [], eofbit := True, failbit := False\<rparr>)"
        using "1.prems" False nonempty by (simp add: getline_at_end)
      have "loadSettings_loop strm ln m
              = loadSettings_loop (strm\<lparr>buf := [], eofbit := True, failbit := False\<rparr>)
                  (buf strm) (loadSettings_body (buf strm) m)"
        using g by (subst loadSettings_loop.simps) simp
      also have "\<dots> = loadSettings_body (buf strm) m"
        by (simp add: loadSettings_loop_stopped)
      finally show ?thesis using False by (simp add: spec_lines_no_newline)
    qed
  qed
qed

lemma fold_body_pairs:
  "(\<And>l. l \<in> set ls \<Longrightarrow> CHR 0x0A \<notin> set l) \<Longrightarrow>
     fold loadSettings_body ls m
       = fold (\<lambda>(k, v). AList.update k v) (List.map_filter spec_line_pair ls) m"
proof (induction ls arbitrary: m)
  case Nil
  then show ?case by simp
next
  case (Cons l ls)
  then show ?case
    by (cases "spec_line_pair l") (auto simp: loadSettings_body_eq)
qed

lemma loadSettings_loop_pairs:
  "loadSettings_loop (istream_of text) line m
     = fold (\<lambda>(k, v). AList.update k v) (spec_file_pairs text) m"
  by (simp add: loadSettings_loop_lines istream_of_def spec_file_pairs_def
      fold_body_pairs spec_lines_free_of_newline)

lemma map_of_fold_update:
  "map_of (fold (\<lambda>(k, v). AList.update k v) ps m) = map_of m ++ map_of (rev ps)"
proof (induction ps arbitrary: m)
  case Nil
  then show ?case by simp
next
  case (Cons p ps)
  obtain k v where p: "p = (k, v)" by (cases p)
  have "map_of (fold (\<lambda>(k, v). AList.update k v) (p # ps) m)
          = map_of (AList.update k v m) ++ map_of (rev ps)"
    by (simp add: p Cons.IH)
  also have "map_of (AList.update k v m) = (map_of m)(k \<mapsto> v)"
    by (rule AList.update_conv')
  also have "(map_of m)(k \<mapsto> v) ++ map_of (rev ps) = map_of m ++ map_of (rev (p # ps))"
    by (simp add: p map_add_assoc [symmetric])
  finally show ?case .
qed

lemma map_of_rev_distinct:
  "distinct (map fst ps) \<Longrightarrow> map_of (rev ps) = map_of ps"
proof (induction ps)
  case Nil
  then show ?case by simp
next
  case (Cons p ps)
  obtain k v where p: "p = (k, v)" by (cases p)
  from Cons.prems p have "k \<notin> dom (map_of ps)" by (simp add: dom_map_of_conv_image_fst)
  then have "map_of ps k = None" by auto
  then have "[k \<mapsto> v] ++ map_of ps = (map_of ps)(k \<mapsto> v)"
    by (auto simp: map_add_def fun_eq_iff split: option.splits)
  with Cons p show ?case by simp
qed

section \<open>The calls on an object whose mutex is free\<close>

text \<open>
  A caller outside the class finds \<open>mutex\<close> free: every member function releases it
  before it returns or throws. For such a state each call reduces to its body. The one
  call made while the mutex is held is the call of \<^verbatim>\<open>saveSettingsAs\<close> at line 132, and
  it does not get the mutex.
\<close>

lemma unlock_unlocked: "\<not> mutex st \<Longrightarrow> st\<lparr>mutex := False\<rparr> = st"
  by (cases st) simp

lemma lock_guard_locked: "mutex st \<Longrightarrow> lock_guard st body = (Deadlock, st)"
  by (simp add: lock_guard_def)

lemma getValue_unlocked:
  "\<not> mutex st \<Longrightarrow>
     getValue st key =
       (case map_of (settings st) key of
          Some v \<Rightarrow> (Returns v, st)
        | None \<Rightarrow> (Throws (NotFoundError key), st))"
  by (simp add: getValue_def lock_guard_def NotFoundError_def unlock_unlocked
      split: option.splits)

lemma setValue_unlocked:
  "\<not> mutex st \<Longrightarrow>
     setValue st key val = (Returns (), st\<lparr>settings := AList.update key val (settings st)\<rparr>)"
  by (cases st) (simp add: setValue_def lock_guard_def)

lemma loadSettings_unlocked:
  "\<not> mutex st \<Longrightarrow>
     loadSettings st filename fs =
       (case contents fs filename of
          None \<Rightarrow> (Throws (IOError filename), st)
        | Some text \<Rightarrow>
            (Returns (),
             st\<lparr>settings := loadSettings_loop (istream_of text) [] (settings st),
                currentFilename := filename\<rparr>))"
  by (cases st) (simp add: loadSettings_def lock_guard_def IOError_def split: option.splits)

lemma saveSettingsAs_unlocked:
  "\<not> mutex st \<Longrightarrow>
     saveSettingsAs st filename fs =
       (if writable fs filename
        then (Returns (fs\<lparr>contents := (contents fs)(filename \<mapsto> write_settings (settings st))\<rparr>), st)
        else (Throws (IOError filename), st))"
  by (cases st) (simp add: saveSettingsAs_def lock_guard_def IOError_def)

lemma saveSettings_unlocked:
  "\<not> mutex st \<Longrightarrow>
     saveSettings st fs =
       (if currentFilename st = [] then (Throws StateError, st)
        else (Deadlock, st\<lparr>mutex := True\<rparr>))"
  by (cases st) (simp add: saveSettings_def saveSettingsAs_def lock_guard_def StateError_def)

lemma lock_guard_Throws:
  assumes "\<And>s. fst (body s) = Throws e \<Longrightarrow> snd (body s) = s"
    and "fst (lock_guard st body) = Throws e"
  shows "snd (lock_guard st body) = st"
proof (cases "mutex st")
  case True
  with assms(2) show ?thesis by (simp add: lock_guard_def)
next
  case False
  obtain r s where b: "body (st\<lparr>mutex := True\<rparr>) = (r, s)"
    by (cases "body (st\<lparr>mutex := True\<rparr>)")
  with assms(2) False have r: "r = Throws e"
    by (cases r) (simp_all add: lock_guard_def)
  with assms(1) [of "st\<lparr>mutex := True\<rparr>"] b have "s = st\<lparr>mutex := True\<rparr>" by simp
  with b r False show ?thesis by (simp add: lock_guard_def unlock_unlocked)
qed

lemma getValue_Throws: "fst (getValue st key) = Throws e \<Longrightarrow> snd (getValue st key) = st"
  unfolding getValue_def by (erule lock_guard_Throws [rotated]) (simp split: option.splits)

lemma getValue_Returns:
  assumes "fst (getValue st key) = Returns v"
  shows "snd (getValue st key) = st"
proof (cases "mutex st")
  case True
  with assms show ?thesis by (simp add: getValue_def lock_guard_locked)
next
  case False
  with assms show ?thesis by (simp add: getValue_unlocked split: option.splits)
qed

lemma loadSettings_Throws:
  "fst (loadSettings st path fs) = Throws e \<Longrightarrow> snd (loadSettings st path fs) = st"
  unfolding loadSettings_def by (erule lock_guard_Throws [rotated]) (simp split: option.splits)

lemma saveSettingsAs_Throws:
  "fst (saveSettingsAs st path fs) = Throws e \<Longrightarrow> snd (saveSettingsAs st path fs) = st"
  unfolding saveSettingsAs_def by (erule lock_guard_Throws [rotated]) (simp split: if_splits)

lemma saveSettings_Throws:
  assumes "fst (saveSettings st fs) = Throws e"
  shows "snd (saveSettings st fs) = st"
proof (cases "mutex st")
  case True
  with assms show ?thesis by (simp add: saveSettings_def lock_guard_locked)
next
  case False
  with assms show ?thesis by (simp add: saveSettings_unlocked split: if_splits)
qed

text \<open>
  A \<^verbatim>\<open>saveSettingsAs\<close> that returns leaves the object as it was; when a
  \<^verbatim>\<open>loadSettings\<close> of \<open>q\<close> produced the object, its current file name is still \<open>q\<close>.
\<close>

lemma saveSettingsAs_keeps_object:
  assumes "\<not> mutex st" and "saveSettingsAs st p fs = (Returns fs', st')"
  shows "st' = st"
    and "settings st' = settings st"
    and "currentFilename st' = currentFilename st"
    and "contents fs' p = Some (write_settings (settings st))"
    and "loadSettings st0 q fs0 = (Returns (), st) \<Longrightarrow> currentFilename st' = q"
proof -
  from assms show eq: "st' = st" by (simp add: saveSettingsAs_unlocked split: if_splits)
  then show "settings st' = settings st" and "currentFilename st' = currentFilename st"
    by simp_all
  from assms show "contents fs' p = Some (write_settings (settings st))"
    by (auto simp: saveSettingsAs_unlocked split: if_splits)
  show "currentFilename st' = q" if "loadSettings st0 q fs0 = (Returns (), st)"
  proof (cases "mutex st0")
    case True
    with that show ?thesis by (simp add: loadSettings_def lock_guard_locked)
  next
    case False
    with that eq show ?thesis by (auto simp: loadSettings_unlocked split: option.splits)
  qed
qed

lemma getValueAs_int_unlocked:
  "\<not> mutex st \<Longrightarrow>
     getValueAs_int st key =
       (case map_of (settings st) key of
          None \<Rightarrow> (Throws (NotFoundError key), st)
        | Some s \<Rightarrow> (case stoi s of Inl e \<Rightarrow> (Throws e, st) | Inr n \<Rightarrow> (Returns n, st)))"
  by (simp add: getValueAs_int_def getValue_unlocked split: option.splits sum.splits)


lemma getValueAs_int_Throws:
  assumes "fst (getValueAs_int st key) = Throws e"
  shows "snd (getValueAs_int st key) = st"
proof (cases "getValue st key")
  case (Pair r s)
  show ?thesis
  proof (cases r)
    case (Returns x)
    with Pair have "s = st" using getValue_Returns [of st key x] by simp
    with Pair Returns show ?thesis by (simp add: getValueAs_int_def split: sum.splits)
  next
    case (Throws e')
    with Pair have "s = st" using getValue_Throws [of st key e'] by simp
    with Pair Throws show ?thesis by (simp add: getValueAs_int_def)
  next
    case Deadlock
    with Pair assms show ?thesis by (simp add: getValueAs_int_def)
  qed
qed

lemma getValueAs_double_Throws:
  assumes "fst (getValueAs_double stod st key) = Throws e"
  shows "snd (getValueAs_double stod st key) = st"
proof (cases "getValue st key")
  case (Pair r s)
  show ?thesis
  proof (cases r)
    case (Returns x)
    with Pair have "s = st" using getValue_Returns [of st key x] by simp
    with Pair Returns show ?thesis by (simp add: getValueAs_double_def split: sum.splits)
  next
    case (Throws e')
    with Pair have "s = st" using getValue_Throws [of st key e'] by simp
    with Pair Throws show ?thesis by (simp add: getValueAs_double_def)
  next
    case Deadlock
    with Pair assms show ?thesis by (simp add: getValueAs_double_def)
  qed
qed

lemma getValueAs_bool_Throws:
  assumes "fst (getValueAs_bool st key) = Throws e"
  shows "snd (getValueAs_bool st key) = st"
proof (cases "getValue st key")
  case (Pair r s)
  show ?thesis
  proof (cases r)
    case (Returns x)
    with Pair assms show ?thesis by (simp add: getValueAs_bool_def)
  next
    case (Throws e')
    with Pair have "s = st" using getValue_Throws [of st key e'] by simp
    with Pair Throws show ?thesis by (simp add: getValueAs_bool_def)
  next
    case Deadlock
    with Pair assms show ?thesis by (simp add: getValueAs_bool_def)
  qed
qed

lemma setValue_no_Throws: "fst (setValue st k v) \<noteq> Throws e"
  by (simp add: setValue_def lock_guard_def)

lemma loadSettings_unlocked_pairs:
  "\<not> mutex st \<Longrightarrow> contents fs path = Some text \<Longrightarrow>
     loadSettings st path fs =
       (Returns (),
        st\<lparr>settings := fold (\<lambda>(k, v). AList.update k v) (spec_file_pairs text) (settings st),
           currentFilename := path\<rparr>)"
  by (simp add: loadSettings_unlocked loadSettings_loop_pairs)

section \<open>The pairs of a written file\<close>

text \<open>
  What \<^verbatim>\<open>saveSettingsAs\<close> writes is read back pair by pair when no key holds \<^verbatim>\<open>=\<close> or a
  newline and no value is empty or holds a newline; and the list of entries keeps one
  entry per key under the assignments of \<^verbatim>\<open>loadSettings\<close> and \<^verbatim>\<open>setValue\<close>.
\<close>

lemma spec_line_pair_leading_eq:
  "v \<noteq> [] \<Longrightarrow> spec_line_pair (CHR ''='' # v) = Some ([], v)"
  by (simp add: spec_line_pair_def)

lemma map_filter_member:
  "x \<in> set xs \<Longrightarrow> f x = Some y \<Longrightarrow> y \<in> set (List.map_filter f xs)"
  by (induction xs) (auto split: option.splits)

lemma distinct_fold_update:
  "distinct (map fst m) \<Longrightarrow> distinct (map fst (fold (\<lambda>(k, v). AList.update k v) ps m))"
  by (induction ps arbitrary: m) (auto simp: AList.distinct_update)

lemma one_entry_per_key:
  assumes "\<not> mutex st" and "distinct (map fst (settings st))"
  shows "distinct (map fst (settings (snd (setValue st k v))))"
    and "distinct (map fst (settings (snd (loadSettings st path fs))))"
proof -
  show "distinct (map fst (settings (snd (setValue st k v))))"
    using assms by (simp add: setValue_unlocked AList.distinct_update)
  show "distinct (map fst (settings (snd (loadSettings st path fs))))"
    using assms
    by (cases "contents fs path")
       (simp_all add: loadSettings_unlocked loadSettings_loop_pairs distinct_fold_update)
qed

lemma spec_line_pair_key_value:
  assumes "CHR ''='' \<notin> set k" and "v \<noteq> []"
  shows "spec_line_pair (k @ CHR ''='' # v) = Some (k, v)"
proof -
  from assms(1) have "takeWhile (\<lambda>c. c \<noteq> CHR ''='') (k @ CHR ''='' # v) = k"
    by (induction k) auto
  moreover from assms(1) have "dropWhile (\<lambda>c. c \<noteq> CHR ''='') (k @ CHR ''='' # v) = CHR ''='' # v"
    by (induction k) auto
  ultimately show ?thesis using assms(2) by (simp add: spec_line_pair_def)
qed

lemma spec_file_pairs_write_settings:
  assumes "\<forall>(k, v) \<in> set M. CHR ''='' \<notin> set k \<and> CHR 0x0A \<notin> set k \<and> CHR 0x0A \<notin> set v \<and> v \<noteq> []"
  shows "spec_file_pairs (write_settings M) = M"
  using assms
proof (induction M)
  case Nil
  then show ?case by (simp add: spec_file_pairs_def spec_line_pair_def)
next
  case (Cons p M)
  obtain k v where p: "p = (k, v)" by (cases p)
  from Cons.prems p have kv: "CHR ''='' \<notin> set k" "CHR 0x0A \<notin> set k" "CHR 0x0A \<notin> set v" "v \<noteq> []"
    by auto
  from Cons have IH: "spec_file_pairs (write_settings M) = M" by simp
  have w: "write_settings (p # M) = (k @ CHR ''='' # v) @ CHR 0x0A # write_settings M"
    by (simp add: p)
  have "CHR 0x0A \<notin> set (k @ CHR ''='' # v)" using kv by simp
  then have "spec_lines ((k @ CHR ''='' # v) @ CHR 0x0A # write_settings M)
               = (k @ CHR ''='' # v) # spec_lines (write_settings M)"
    by (rule spec_lines_append_newline)
  with w have "spec_lines (write_settings (p # M))
                 = (k @ CHR ''='' # v) # spec_lines (write_settings M)"
    by (simp only:)
  then show ?case
    using IH kv by (simp add: spec_file_pairs_def spec_line_pair_key_value p)
qed

lemma map_of_fold_update_last:
  assumes "k \<notin> fst ` set ps'"
  shows "map_of (fold (\<lambda>(k, v). AList.update k v) (ps @ (k, v) # ps') m) k = Some v"
proof -
  from assms have "k \<notin> dom (map_of (rev ps'))" by (simp add: dom_map_of_conv_image_fst)
  then have "map_of (rev ps') k = None" by blast
  then show ?thesis
    by (subst map_of_fold_update) (simp add: map_add_def)
qed

lemma map_add_same: "m ++ m = m"
  by (simp add: map_add_def fun_eq_iff split: option.splits)

section \<open>What stoi reads\<close>

lemma isdigit_not_isspace: "isdigit c \<Longrightarrow> \<not> isspace c"
  by (auto simp: isdigit_def isspace_def)

lemma isdigit_not_sign: "isdigit c \<Longrightarrow> c \<noteq> CHR ''-'' \<and> c \<noteq> CHR ''+''"
  by (auto simp: isdigit_def)

lemma sign_not_isspace: "\<not> isspace (CHR ''-'')" "\<not> isspace (CHR ''+'')"
  by (simp_all add: isspace_def)

lemma stoi_prefix:
  assumes ws: "list_all isspace ws"
    and sg: "sg = [] \<or> sg = ''+'' \<or> sg = ''-''"
    and ds: "ds \<noteq> []" "list_all isdigit ds"
    and rest: "rest = [] \<or> \<not> isdigit (hd rest)"
  shows "stoi (ws @ sg @ ds @ rest) = stoi_range (sg = ''-'') ds"
proof -
  obtain d ds' where d: "ds = d # ds'" using ds(1) by (cases ds) auto
  with ds(2) have dd: "isdigit d" by simp
  have drop: "dropWhile isspace (ws @ sg @ ds @ rest) = sg @ ds @ rest"
  proof -
    have "dropWhile isspace (ws @ sg @ ds @ rest) = dropWhile isspace (sg @ ds @ rest)"
      using ws by (simp add: list_all_iff)
    also have "\<dots> = sg @ ds @ rest"
      using sg dd by (auto simp: d isdigit_not_isspace sign_not_isspace)
    finally show ?thesis .
  qed
  have take: "takeWhile isdigit (ds @ rest) = ds"
  proof -
    have "takeWhile isdigit (ds @ rest) = ds @ takeWhile isdigit rest"
      using ds(2) by (simp add: list_all_iff)
    moreover have "takeWhile isdigit rest = []"
      using rest by (cases rest) auto
    ultimately show ?thesis by simp
  qed
  have unfold: "stoi (ws @ sg @ ds @ rest) =
      (let s = sg @ ds @ rest;
           neg = (case s of [] \<Rightarrow> False | c # cs \<Rightarrow> c = CHR ''-'');
           s' = (case s of [] \<Rightarrow> []
                 | c # cs \<Rightarrow> if c = CHR ''-'' \<or> c = CHR ''+'' then cs else s);
           ds = takeWhile isdigit s'
       in if ds = [] then Inl invalid_argument
          else let v = (if neg then - digits_value ds else digits_value ds)
               in if v < - 2147483648 \<or> 2147483647 < v then Inl out_of_range else Inr v)"
    unfolding stoi_def drop stoi_range_def ..
  from sg show ?thesis
  proof (elim disjE)
    assume "sg = []"
    with dd isdigit_not_sign [OF dd] show ?thesis
      unfolding unfold using take by (simp add: d stoi_range_def Let_def)
  next
    assume "sg = ''+''"
    then show ?thesis
      unfolding unfold using take ds(1) by (simp add: stoi_range_def Let_def)
  next
    assume "sg = ''-''"
    then show ?thesis
      unfolding unfold using take ds(1) by (simp add: stoi_range_def Let_def)
  qed
qed

lemma stoi_not_invalid:
  assumes ws: "list_all isspace ws"
    and sg: "sg = [] \<or> sg = ''+'' \<or> sg = ''-''"
    and ds: "ds \<noteq> []" "list_all isdigit ds"
  shows "stoi (ws @ sg @ ds @ rest) \<noteq> Inl invalid_argument"
proof -
  let ?ds = "ds @ takeWhile isdigit rest" and ?rest = "dropWhile isdigit rest"
  have "list_all isdigit ?ds"
    using ds(2) by (auto simp: list_all_iff dest: set_takeWhileD)
  moreover have "?rest = [] \<or> \<not> isdigit (hd ?rest)"
    by (metis hd_dropWhile)
  moreover have "?ds \<noteq> []" using ds(1) by simp
  ultimately have "stoi (ws @ sg @ ?ds @ ?rest) = stoi_range (sg = ''-'') ?ds"
    using ws sg by (intro stoi_prefix)
  then have "stoi (ws @ sg @ ds @ rest) = stoi_range (sg = ''-'') ?ds" by simp
  then show ?thesis by (simp add: stoi_range_def Let_def)
qed

lemma stoi_invalid_has_no_numeral:
  assumes "stoi s \<noteq> Inl invalid_argument"
  shows "\<exists>ws sg ds rest. s = ws @ sg @ ds @ rest \<and> list_all isspace ws
           \<and> (sg = [] \<or> sg = ''+'' \<or> sg = ''-'') \<and> ds \<noteq> [] \<and> list_all isdigit ds"
proof -
  define s1 where "s1 = dropWhile isspace s"
  define sg where "sg = (case s1 of [] \<Rightarrow> [] | c # cs \<Rightarrow>
                             if c = CHR ''-'' \<or> c = CHR ''+'' then [c] else [])"
  define s2 where "s2 = (case s1 of [] \<Rightarrow> [] | c # cs \<Rightarrow>
                             if c = CHR ''-'' \<or> c = CHR ''+'' then cs else s1)"
  have s: "s = takeWhile isspace s @ s1" by (simp add: s1_def)
  have s1: "s1 = sg @ s2" by (cases s1) (auto simp: sg_def s2_def)
  have s2: "s2 = takeWhile isdigit s2 @ dropWhile isdigit s2" by simp
  have ne: "takeWhile isdigit s2 \<noteq> []"
  proof
    assume "takeWhile isdigit s2 = []"
    then have "stoi s = Inl invalid_argument"
      unfolding s2_def s1_def by (simp add: stoi_def Let_def)
    with assms show False by simp
  qed
  have "s = takeWhile isspace s @ sg @ takeWhile isdigit s2 @ dropWhile isdigit s2"
    using s s1 s2 by simp
  moreover have "list_all isspace (takeWhile isspace s)"
    by (auto simp: list_all_iff dest: set_takeWhileD)
  moreover have "sg = [] \<or> sg = ''+'' \<or> sg = ''-''"
    by (cases s1) (auto simp: sg_def)
  moreover have "list_all isdigit (takeWhile isdigit s2)"
    by (auto simp: list_all_iff dest: set_takeWhileD)
  ultimately show ?thesis using ne by blast
qed

lemma stoi_Inl: "stoi s = Inl e \<Longrightarrow> ConversionError e"
  by (auto simp: stoi_def stoi_range_def Let_def ConversionError_def split: if_splits)

lemma spec_valid_int_stoi:
  assumes "spec_valid_int s"
  shows "stoi s = (if spec_int_value s < - 2147483648 \<or> 2147483647 < spec_int_value s
                   then Inl out_of_range else Inr (spec_int_value s))"
proof -
  obtain c cs where s: "s = c # cs" using assms by (cases s) (auto simp: spec_valid_int_def)
  show ?thesis
  proof (cases "c = CHR ''-'' \<or> c = CHR ''+''")
    case True
    with assms s have cs: "cs \<noteq> []" "list_all isdigit cs" by (auto simp: spec_valid_int_def)
    have "stoi ([] @ [c] @ cs @ []) = stoi_range ([c] = ''-'') cs"
      using True cs by (intro stoi_prefix) auto
    with True show ?thesis by (auto simp: s spec_int_value_def stoi_range_def Let_def)
  next
    case False
    with assms s have "list_all isdigit s" by (auto simp: spec_valid_int_def)
    then have "stoi ([] @ [] @ s @ []) = stoi_range ([] = ''-'') s"
      using s by (intro stoi_prefix) auto
    with False show ?thesis by (auto simp: s spec_int_value_def stoi_range_def Let_def)
  qed
qed


lemma getValueAs_int_stored:
  "\<not> mutex st \<Longrightarrow> map_of (settings st) key = Some s \<Longrightarrow>
     getValueAs_int st key = (case stoi s of Inl e \<Rightarrow> Throws e | Inr n \<Rightarrow> Returns n, st)"
  by (simp add: getValueAs_int_unlocked split: sum.splits)

section \<open>Claims\<close>

subsection \<open>C1: what loadSettings does to the mapping\<close>

text \<open>
  C1 as stated says that a load replaces the mapping: a key present before and absent
  from the file is absent afterwards. \<^verbatim>\<open>loadSettings\<close> never clears \<^verbatim>\<open>settings_\<close>; it
  only assigns \<^verbatim>\<open>settings_[key] = value\<close> line by line. With \<^verbatim>\<open>old\<close> bound before the
  load and a file whose only pair is \<^verbatim>\<open>a=1\<close>, \<^verbatim>\<open>old\<close> is still bound afterwards.
\<close>

theorem loadSettings_keeps_old_keys_counterexample:
  "map_of (settings (getInstance\<lparr>settings := [(''old'', ''x'')]\<rparr>)) ''old'' = Some ''x''
   \<and> spec_file_pairs (''a=1'' @ [CHR 0x0A]) = [(''a'', ''1'')]
   \<and> fst (loadSettings (getInstance\<lparr>settings := [(''old'', ''x'')]\<rparr>) ''f''
         \<lparr>contents = [''f'' \<mapsto> ''a=1'' @ [CHR 0x0A]], writable = (\<lambda>f. True)\<rparr>) = Returns ()
   \<and> settings (snd (loadSettings (getInstance\<lparr>settings := [(''old'', ''x'')]\<rparr>) ''f''
         \<lparr>contents = [''f'' \<mapsto> ''a=1'' @ [CHR 0x0A]], writable = (\<lambda>f. True)\<rparr>))
       = [(''old'', ''x''), (''a'', ''1'')]"
  by (simp add: loadSettings_def lock_guard_def getInstance_def spec_file_pairs_def
      spec_line_pair_def loadSettings_loop.simps loadSettings_body_def getline_def istream_of_def)

text \<open>
  C1, amended. After a \<^verbatim>\<open>loadSettings(path)\<close> that returns, the mapping is the mapping
  before the call overridden by the pairs of the file, a later line overriding an
  earlier one: a key that does not occur in the file keeps the value it had, a key
  that occurs in the file has the value of its last occurrence, and the current file
  name is \<open>path\<close>.
\<close>

theorem loadSettings_merges:
  assumes "\<not> mutex st" and "contents fs path = Some text"
  shows "fst (loadSettings st path fs) = Returns ()
       \<and> map_of (settings (snd (loadSettings st path fs)))
           = map_of (settings st) ++ map_of (rev (spec_file_pairs text))
       \<and> (\<forall>k. k \<notin> fst ` set (spec_file_pairs text) \<longrightarrow>
             map_of (settings (snd (loadSettings st path fs))) k = map_of (settings st) k)
       \<and> (\<forall>k. k \<in> fst ` set (spec_file_pairs text) \<longrightarrow>
             map_of (settings (snd (loadSettings st path fs))) k
               = map_of (rev (spec_file_pairs text)) k)
       \<and> currentFilename (snd (loadSettings st path fs)) = path"
proof -
  let ?ps = "spec_file_pairs text"
  have ld: "loadSettings st path fs =
      (Returns (), st\<lparr>settings := fold (\<lambda>(k, v). AList.update k v) ?ps (settings st),
                      currentFilename := path\<rparr>)"
    using assms by (rule loadSettings_unlocked_pairs)
  have m: "map_of (settings (snd (loadSettings st path fs)))
             = map_of (settings st) ++ map_of (rev ?ps)"
    by (simp add: ld map_of_fold_update)
  have out: "(map_of (settings st) ++ map_of (rev ?ps)) k = map_of (settings st) k"
    if "k \<notin> fst ` set ?ps" for k
  proof -
    from that have "k \<notin> dom (map_of (rev ?ps))" by (simp add: dom_map_of_conv_image_fst)
    then show ?thesis by (simp add: map_add_dom_app_simps)
  qed
  have inn: "(map_of (settings st) ++ map_of (rev ?ps)) k = map_of (rev ?ps) k"
    if "k \<in> fst ` set ?ps" for k
  proof -
    from that have "k \<in> dom (map_of (rev ?ps))" by (simp add: dom_map_of_conv_image_fst)
    then show ?thesis by (simp add: map_add_dom_app_simps)
  qed
  from out inn show ?thesis by (simp add: m) (simp add: ld)
qed

theorem loadSettings_merges_witness:
  "\<not> mutex (getInstance\<lparr>settings := [(''old'', ''x''), (''a'', ''0'')]\<rparr>)
   \<and> contents \<lparr>contents = [''f'' \<mapsto> ''a=1'' @ [CHR 0x0A]], writable = (\<lambda>f. True)\<rparr> ''f''
       = Some (''a=1'' @ [CHR 0x0A])
   \<and> fst (loadSettings (getInstance\<lparr>settings := [(''old'', ''x''), (''a'', ''0'')]\<rparr>) ''f''
         \<lparr>contents = [''f'' \<mapsto> ''a=1'' @ [CHR 0x0A]], writable = (\<lambda>f. True)\<rparr>) = Returns ()
   \<and> map_of (settings (snd (loadSettings (getInstance\<lparr>settings := [(''old'', ''x''), (''a'', ''0'')]\<rparr>) ''f''
         \<lparr>contents = [''f'' \<mapsto> ''a=1'' @ [CHR 0x0A]], writable = (\<lambda>f. True)\<rparr>)))
       = [''old'' \<mapsto> ''x'', ''a'' \<mapsto> ''1'']
   \<and> currentFilename (snd (loadSettings (getInstance\<lparr>settings := [(''old'', ''x''), (''a'', ''0'')]\<rparr>) ''f''
         \<lparr>contents = [''f'' \<mapsto> ''a=1'' @ [CHR 0x0A]], writable = (\<lambda>f. True)\<rparr>)) = ''f''"
  using loadSettings_merges
    [of "getInstance\<lparr>settings := [(''old'', ''x''), (''a'', ''0'')]\<rparr>"
        "\<lparr>contents = [''f'' \<mapsto> ''a=1'' @ [CHR 0x0A]], writable = (\<lambda>f. True)\<rparr>" "''f''"
        "''a=1'' @ [CHR 0x0A]"]
  by (simp add: getInstance_def spec_file_pairs_def spec_line_pair_def)

subsection \<open>C2: saving and loading again\<close>

text \<open>
  C2 as stated includes entries whose value is the empty string. Such an entry is
  written as \<^verbatim>\<open>k=\<close>, a line with nothing after the \<^verbatim>\<open>=\<close>, which \<^verbatim>\<open>loadSettings\<close>
  drops: the mapping with the one entry \<^verbatim>\<open>k\<close> bound to the empty string comes back
  empty in a fresh object.
\<close>

theorem roundtrip_empty_value_counterexample:
  "map_of (settings (getInstance\<lparr>settings := [(''k'', [])]\<rparr>)) ''k'' = Some []
   \<and> saveSettingsAs (getInstance\<lparr>settings := [(''k'', [])]\<rparr>) ''p''
         \<lparr>contents = Map.empty, writable = (\<lambda>f. True)\<rparr>
       = (Returns \<lparr>contents = [''p'' \<mapsto> ''k='' @ [CHR 0x0A]], writable = (\<lambda>f. True)\<rparr>,
          getInstance\<lparr>settings := [(''k'', [])]\<rparr>)
   \<and> fst (loadSettings getInstance ''p''
         \<lparr>contents = [''p'' \<mapsto> ''k='' @ [CHR 0x0A]], writable = (\<lambda>f. True)\<rparr>) = Returns ()
   \<and> settings (snd (loadSettings getInstance ''p''
         \<lparr>contents = [''p'' \<mapsto> ''k='' @ [CHR 0x0A]], writable = (\<lambda>f. True)\<rparr>)) = []"
  by (simp add: saveSettingsAs_def loadSettings_def lock_guard_def getInstance_def
      loadSettings_loop.simps loadSettings_body_def getline_def istream_of_def)

text \<open>
  C2, amended. Let the keys and values of a mapping contain no \<^verbatim>\<open>=\<close> and no newline,
  and let no value be empty. After \<^verbatim>\<open>saveSettingsAs(p)\<close> has written it, a
  \<^verbatim>\<open>loadSettings(p)\<close> on any object returns and leaves that object's mapping overridden
  by the written one: the result equals the written mapping when the loading object
  was empty, and when it is the object that wrote the file.
\<close>

theorem saveSettingsAs_loadSettings_roundtrip:
  assumes "\<not> mutex st" and "\<not> mutex st2"
    and "distinct (map fst (settings st))"
    and "\<forall>(k, v) \<in> set (settings st).
           CHR ''='' \<notin> set k \<and> CHR 0x0A \<notin> set k \<and> CHR ''='' \<notin> set v \<and> CHR 0x0A \<notin> set v
           \<and> v \<noteq> []"
    and "saveSettingsAs st p fs = (Returns fs', st')"
  shows "fst (loadSettings st2 p fs') = Returns ()
       \<and> map_of (settings (snd (loadSettings st2 p fs')))
           = map_of (settings st2) ++ map_of (settings st)
       \<and> (settings st2 = [] \<longrightarrow>
             map_of (settings (snd (loadSettings st2 p fs'))) = map_of (settings st))
       \<and> map_of (settings (snd (loadSettings st' p fs'))) = map_of (settings st)"
proof -
  from assms(1,5) have st': "st' = st"
    and fs': "contents fs' p = Some (write_settings (settings st))"
    by (auto simp: saveSettingsAs_unlocked split: if_splits)
  from assms(4) have "\<forall>(k, v) \<in> set (settings st).
      CHR ''='' \<notin> set k \<and> CHR 0x0A \<notin> set k \<and> CHR 0x0A \<notin> set v \<and> v \<noteq> []"
    by fast
  then have ps: "spec_file_pairs (write_settings (settings st)) = settings st"
    by (rule spec_file_pairs_write_settings)
  have rev: "map_of (rev (settings st)) = map_of (settings st)"
    using assms(3) by (rule map_of_rev_distinct)
  have ld: "loadSettings s p fs' =
      (Returns (), s\<lparr>settings := fold (\<lambda>(k, v). AList.update k v) (settings st) (settings s),
                     currentFilename := p\<rparr>)" if "\<not> mutex s" for s
    using loadSettings_unlocked_pairs [OF that fs'] by (simp add: ps)
  have any: "map_of (settings (snd (loadSettings s p fs'))) = map_of (settings s) ++ map_of (settings st)"
    if "\<not> mutex s" for s
    by (simp add: ld [OF that] map_of_fold_update rev)
  have same: "map_of (settings (snd (loadSettings st' p fs'))) = map_of (settings st)"
    using any [OF assms(1)] by (simp add: st' map_add_same)
  have ret: "fst (loadSettings st2 p fs') = Returns ()"
    by (simp add: ld [OF assms(2)])
  have empty: "settings st2 = [] \<longrightarrow>
      map_of (settings (snd (loadSettings st2 p fs'))) = map_of (settings st)"
    by (simp add: any [OF assms(2)])
  from ret any [OF assms(2)] empty same show ?thesis by (intro conjI)
qed

theorem saveSettingsAs_loadSettings_roundtrip_witness:
  "\<not> mutex (getInstance\<lparr>settings := [(''a'', ''1''), ([], ''x'')]\<rparr>) \<and> \<not> mutex getInstance
   \<and> distinct (map fst (settings (getInstance\<lparr>settings := [(''a'', ''1''), ([], ''x'')]\<rparr>)))
   \<and> saveSettingsAs (getInstance\<lparr>settings := [(''a'', ''1''), ([], ''x'')]\<rparr>) ''p''
         \<lparr>contents = Map.empty, writable = (\<lambda>f. True)\<rparr>
       = (Returns \<lparr>contents = [''p'' \<mapsto> ''a=1'' @ [CHR 0x0A] @ ''=x'' @ [CHR 0x0A]],
                   writable = (\<lambda>f. True)\<rparr>,
          getInstance\<lparr>settings := [(''a'', ''1''), ([], ''x'')]\<rparr>)
   \<and> fst (loadSettings getInstance ''p''
         \<lparr>contents = [''p'' \<mapsto> ''a=1'' @ [CHR 0x0A] @ ''=x'' @ [CHR 0x0A]], writable = (\<lambda>f. True)\<rparr>)
       = Returns ()
   \<and> map_of (settings (snd (loadSettings getInstance ''p''
         \<lparr>contents = [''p'' \<mapsto> ''a=1'' @ [CHR 0x0A] @ ''=x'' @ [CHR 0x0A]], writable = (\<lambda>f. True)\<rparr>)))
       = map_of (settings (getInstance\<lparr>settings := [(''a'', ''1''), ([], ''x'')]\<rparr>))"
  using saveSettingsAs_loadSettings_roundtrip
    [of "getInstance\<lparr>settings := [(''a'', ''1''), ([], ''x'')]\<rparr>" getInstance "''p''"
        "\<lparr>contents = Map.empty, writable = (\<lambda>f. True)\<rparr>"
        "\<lparr>contents = [''p'' \<mapsto> ''a=1'' @ [CHR 0x0A] @ ''=x'' @ [CHR 0x0A]], writable = (\<lambda>f. True)\<rparr>"
        "getInstance\<lparr>settings := [(''a'', ''1''), ([], ''x'')]\<rparr>"]
  by (simp add: getInstance_def saveSettingsAs_def lock_guard_def)

subsection \<open>C3: reading a value as an int\<close>

text \<open>
  C3 as stated says that \<^verbatim>\<open>getValueAs<int>\<close> throws exactly when the stored string is not
  a valid base-10 integer. It fails in both directions: \<^verbatim>\<open>"123abc"\<close> is not one, and
  \<^verbatim>\<open>std::stoi\<close> returns 123 for it; \<^verbatim>\<open>"99999999999"\<close> is one, and \<^verbatim>\<open>std::stoi\<close> throws
  \<^verbatim>\<open>std::out_of_range\<close> for it.
\<close>

theorem getValueAs_int_trailing_counterexample:
  "\<not> spec_valid_int ''123abc''
   \<and> getValueAs_int (getInstance\<lparr>settings := [(''k'', ''123abc'')]\<rparr>) ''k''
       = (Returns 123, getInstance\<lparr>settings := [(''k'', ''123abc'')]\<rparr>)
   \<and> spec_valid_int ''99999999999''
   \<and> getValueAs_int (getInstance\<lparr>settings := [(''n'', ''99999999999'')]\<rparr>) ''n''
       = (Throws out_of_range, getInstance\<lparr>settings := [(''n'', ''99999999999'')]\<rparr>)"
  by (simp add: spec_valid_int_def isdigit_def getValueAs_int_def getValue_def lock_guard_def
      getInstance_def stoi_def stoi_range_def isspace_def digits_value_def)

text \<open>
  C3, amended. For a key bound to \<open>s\<close>, \<^verbatim>\<open>getValueAs<int>\<close> reads \<open>s\<close> as \<^verbatim>\<open>std::stoi\<close>
  does: white space, an optional sign, then the longest run of decimal digits; what
  follows the digits is ignored. It throws \<^verbatim>\<open>std::invalid_argument\<close> exactly when \<open>s\<close>
  has no such run of digits, \<^verbatim>\<open>std::out_of_range\<close> when the signed value of the run is
  outside \<open>-2147483648 .. 2147483647\<close>, and returns that value otherwise. A valid
  base-10 integer is returned as the integer it denotes when that fits an \<^verbatim>\<open>int\<close>, and
  throws \<^verbatim>\<open>std::out_of_range\<close> when it does not. Every exception of the call on a
  present key is one of the two conversion errors, and the object is unchanged.
\<close>

theorem getValueAs_int_reads_prefix:
  assumes "\<not> mutex st" and "map_of (settings st) key = Some s"
  shows "(fst (getValueAs_int st key) = Throws invalid_argument \<longleftrightarrow>
            \<not> (\<exists>ws sg ds rest. s = ws @ sg @ ds @ rest \<and> list_all isspace ws
                   \<and> (sg = [] \<or> sg = ''+'' \<or> sg = ''-'') \<and> ds \<noteq> [] \<and> list_all isdigit ds))
       \<and> (\<forall>ws sg ds rest.
             s = ws @ sg @ ds @ rest \<and> list_all isspace ws
             \<and> (sg = [] \<or> sg = ''+'' \<or> sg = ''-'') \<and> ds \<noteq> [] \<and> list_all isdigit ds
             \<and> (rest = [] \<or> \<not> isdigit (hd rest))
             \<longrightarrow> getValueAs_int st key =
                   (let n = (if sg = ''-'' then - digits_value ds else digits_value ds)
                    in if n < - 2147483648 \<or> 2147483647 < n then Throws out_of_range
                       else Returns n, st))
       \<and> (spec_valid_int s \<longrightarrow>
             getValueAs_int st key =
               (if spec_int_value s < - 2147483648 \<or> 2147483647 < spec_int_value s
                then Throws out_of_range else Returns (spec_int_value s), st))
       \<and> (\<forall>e. fst (getValueAs_int st key) = Throws e \<longrightarrow> ConversionError e)
       \<and> snd (getValueAs_int st key) = st"
proof -
  note g = getValueAs_int_stored [OF assms]
  have c1: "fst (getValueAs_int st key) = Throws invalid_argument \<longleftrightarrow>
      \<not> (\<exists>ws sg ds rest. s = ws @ sg @ ds @ rest \<and> list_all isspace ws
             \<and> (sg = [] \<or> sg = ''+'' \<or> sg = ''-'') \<and> ds \<noteq> [] \<and> list_all isdigit ds)"
  proof
    assume "fst (getValueAs_int st key) = Throws invalid_argument"
    then have inv: "stoi s = Inl invalid_argument" by (simp add: g split: sum.splits)
    show "\<not> (\<exists>ws sg ds rest. s = ws @ sg @ ds @ rest \<and> list_all isspace ws
             \<and> (sg = [] \<or> sg = ''+'' \<or> sg = ''-'') \<and> ds \<noteq> [] \<and> list_all isdigit ds)"
    proof
      assume "\<exists>ws sg ds rest. s = ws @ sg @ ds @ rest \<and> list_all isspace ws
             \<and> (sg = [] \<or> sg = ''+'' \<or> sg = ''-'') \<and> ds \<noteq> [] \<and> list_all isdigit ds"
      then obtain ws sg ds rest where "s = ws @ sg @ ds @ rest" "list_all isspace ws"
        "sg = [] \<or> sg = ''+'' \<or> sg = ''-''" "ds \<noteq> []" "list_all isdigit ds" by blast
      then have "stoi s \<noteq> Inl invalid_argument" by (simp only: stoi_not_invalid not_False_eq_True)
      with inv show False by simp
    qed
  next
    assume no: "\<not> (\<exists>ws sg ds rest. s = ws @ sg @ ds @ rest \<and> list_all isspace ws
             \<and> (sg = [] \<or> sg = ''+'' \<or> sg = ''-'') \<and> ds \<noteq> [] \<and> list_all isdigit ds)"
    have "stoi s = Inl invalid_argument"
    proof (rule ccontr)
      assume "stoi s \<noteq> Inl invalid_argument"
      from stoi_invalid_has_no_numeral [OF this] no show False by blast
    qed
    then show "fst (getValueAs_int st key) = Throws invalid_argument" by (simp add: g)
  qed
  have c2: "\<forall>ws sg ds rest.
             s = ws @ sg @ ds @ rest \<and> list_all isspace ws
             \<and> (sg = [] \<or> sg = ''+'' \<or> sg = ''-'') \<and> ds \<noteq> [] \<and> list_all isdigit ds
             \<and> (rest = [] \<or> \<not> isdigit (hd rest))
             \<longrightarrow> getValueAs_int st key =
                   (let n = (if sg = ''-'' then - digits_value ds else digits_value ds)
                    in if n < - 2147483648 \<or> 2147483647 < n then Throws out_of_range
                       else Returns n, st)"
  proof (intro allI impI, elim conjE)
    fix ws sg ds rest
    assume s: "s = ws @ sg @ ds @ rest" and "list_all isspace ws"
      and "sg = [] \<or> sg = ''+'' \<or> sg = ''-''" and "ds \<noteq> []" and "list_all isdigit ds"
      and "rest = [] \<or> \<not> isdigit (hd rest)"
    then have "stoi (ws @ sg @ ds @ rest) = stoi_range (sg = ''-'') ds" by (intro stoi_prefix)
    then show "getValueAs_int st key =
                   (let n = (if sg = ''-'' then - digits_value ds else digits_value ds)
                    in if n < - 2147483648 \<or> 2147483647 < n then Throws out_of_range
                       else Returns n, st)"
      unfolding g s by (simp add: stoi_range_def Let_def)
  qed
  have c3: "spec_valid_int s \<longrightarrow>
             getValueAs_int st key =
               (if spec_int_value s < - 2147483648 \<or> 2147483647 < spec_int_value s
                then Throws out_of_range else Returns (spec_int_value s), st)"
    by (simp add: g spec_valid_int_stoi)
  have c4: "\<forall>e. fst (getValueAs_int st key) = Throws e \<longrightarrow> ConversionError e"
    by (auto simp: g split: sum.splits dest: stoi_Inl)
  have c5: "snd (getValueAs_int st key) = st"
    by (simp add: g)
  from c1 c2 c3 c4 c5 show ?thesis by (intro conjI)
qed

theorem getValueAs_int_reads_prefix_witness:
  "\<not> mutex (getInstance\<lparr>settings := [(''k'', '' -42abc''), (''j'', ''x1'')]\<rparr>)
   \<and> map_of (settings (getInstance\<lparr>settings := [(''k'', '' -42abc''), (''j'', ''x1'')]\<rparr>)) ''k''
       = Some ('' '' @ ''-'' @ ''42'' @ ''abc'')
   \<and> list_all isspace '' '' \<and> list_all isdigit ''42'' \<and> \<not> isdigit (hd ''abc'')
   \<and> getValueAs_int (getInstance\<lparr>settings := [(''k'', '' -42abc''), (''j'', ''x1'')]\<rparr>) ''k''
       = (Returns (- 42), getInstance\<lparr>settings := [(''k'', '' -42abc''), (''j'', ''x1'')]\<rparr>)"
  using getValueAs_int_reads_prefix
    [of "getInstance\<lparr>settings := [(''k'', '' -42abc''), (''j'', ''x1'')]\<rparr>" "''k''" "'' -42abc''"]
  by (simp add: getInstance_def isspace_def isdigit_def getValueAs_int_def getValue_def
      lock_guard_def stoi_def stoi_range_def digits_value_def)

subsection \<open>C4: when saveSettings throws for want of a file name\<close>

text \<open>
  C4 as stated says that \<^verbatim>\<open>saveSettings()\<close> throws the "no filename" error exactly
  when neither a \<^verbatim>\<open>loadSettings\<close> nor a \<^verbatim>\<open>saveSettingsAs\<close> came before. It fails
  on a fresh object: \<^verbatim>\<open>saveSettingsAs("p")\<close> returns, and the \<^verbatim>\<open>saveSettings()\<close> that
  follows throws that error.
\<close>

theorem saveSettings_after_saveSettingsAs_counterexample:
  "saveSettingsAs getInstance ''p'' \<lparr>contents = Map.empty, writable = (\<lambda>f. True)\<rparr>
     = (Returns \<lparr>contents = [''p'' \<mapsto> []], writable = (\<lambda>f. True)\<rparr>, getInstance)
   \<and> saveSettings getInstance \<lparr>contents = [''p'' \<mapsto> []], writable = (\<lambda>f. True)\<rparr>
       = (Throws StateError, getInstance)"
  by (simp add: saveSettingsAs_def saveSettings_def lock_guard_def getInstance_def StateError_def)

text \<open>
  C4, amended. \<^verbatim>\<open>saveSettings()\<close> throws the "no filename" error exactly when the
  current file name is empty. That name is empty in a fresh object; a
  \<^verbatim>\<open>loadSettings(p)\<close> that returns sets it to \<open>p\<close>, one that does not return leaves it;
  \<^verbatim>\<open>saveSettingsAs\<close> and \<^verbatim>\<open>setValue\<close> never change it.
\<close>

theorem saveSettings_StateError_iff:
  assumes "\<not> mutex st"
  shows "(fst (saveSettings st fs) = Throws StateError \<longleftrightarrow> currentFilename st = [])
       \<and> currentFilename getInstance = []
       \<and> currentFilename (snd (saveSettingsAs st p fs)) = currentFilename st
       \<and> currentFilename (snd (setValue st k v)) = currentFilename st
       \<and> (fst (loadSettings st p fs) = Returns ()
            \<longrightarrow> currentFilename (snd (loadSettings st p fs)) = p)
       \<and> (fst (loadSettings st p fs) \<noteq> Returns ()
            \<longrightarrow> currentFilename (snd (loadSettings st p fs)) = currentFilename st)"
  using assms
  by (simp add: saveSettings_unlocked saveSettingsAs_unlocked setValue_unlocked
      loadSettings_unlocked getInstance_def split: option.splits)

theorem saveSettings_StateError_iff_witness:
  "\<not> mutex getInstance
   \<and> fst (saveSettings getInstance \<lparr>contents = [''q'' \<mapsto> ''a=1''], writable = (\<lambda>f. True)\<rparr>)
       = Throws StateError
   \<and> fst (loadSettings getInstance ''q'' \<lparr>contents = [''q'' \<mapsto> ''a=1''], writable = (\<lambda>f. True)\<rparr>)
       = Returns ()
   \<and> currentFilename (snd (loadSettings getInstance ''q''
         \<lparr>contents = [''q'' \<mapsto> ''a=1''], writable = (\<lambda>f. True)\<rparr>)) = ''q''
   \<and> fst (saveSettings (snd (loadSettings getInstance ''q''
         \<lparr>contents = [''q'' \<mapsto> ''a=1''], writable = (\<lambda>f. True)\<rparr>))
         \<lparr>contents = [''q'' \<mapsto> ''a=1''], writable = (\<lambda>f. True)\<rparr>) \<noteq> Throws StateError"
  using saveSettings_StateError_iff
    [of getInstance "\<lparr>contents = [''q'' \<mapsto> ''a=1''], writable = (\<lambda>f. True)\<rparr>" "''q''"]
    saveSettings_StateError_iff
    [of "snd (loadSettings getInstance ''q''
         \<lparr>contents = [''q'' \<mapsto> ''a=1''], writable = (\<lambda>f. True)\<rparr>)"
        "\<lparr>contents = [''q'' \<mapsto> ''a=1''], writable = (\<lambda>f. True)\<rparr>"]
  by (simp add: getInstance_def loadSettings_def lock_guard_def)

subsection \<open>C5: how loadSettings reads a line\<close>

text \<open>
  C5. For every file that opens, \<^verbatim>\<open>loadSettings\<close> returns and has assigned, in the
  order of the lines, the pairs that the specification's format gives
  (\<open>spec_file_pairs\<close>: key before the first \<^verbatim>\<open>=\<close>, value after it, a line without
  \<^verbatim>\<open>=\<close> or with nothing after it ignored). A key has the value of its last pair. The
  file \<^verbatim>\<open>a=1\<close>, \<^verbatim>\<open>badline\<close>, \<^verbatim>\<open>b=2=3\<close> loaded into an empty mapping gives exactly
  \<^verbatim>\<open>a\<close> bound to \<^verbatim>\<open>1\<close> and \<^verbatim>\<open>b\<close> bound to \<^verbatim>\<open>2=3\<close>.
\<close>

theorem loadSettings_reads_lines:
  assumes "\<not> mutex st" and "contents fs path = Some text"
  shows "fst (loadSettings st path fs) = Returns ()
       \<and> settings (snd (loadSettings st path fs))
           = fold (\<lambda>(k, v). AList.update k v) (spec_file_pairs text) (settings st)
       \<and> (\<forall>ps k v ps'. spec_file_pairs text = ps @ (k, v) # ps' \<and> k \<notin> fst ` set ps'
             \<longrightarrow> map_of (settings (snd (loadSettings st path fs))) k = Some v)
       \<and> (text = ''a=1'' @ [CHR 0x0A] @ ''badline'' @ [CHR 0x0A] @ ''b=2=3'' @ [CHR 0x0A]
            \<and> settings st = []
            \<longrightarrow> settings (snd (loadSettings st path fs)) = [(''a'', ''1''), (''b'', ''2=3'')])"
proof -
  let ?ps = "spec_file_pairs text"
  have ld: "loadSettings st path fs =
      (Returns (), st\<lparr>settings := fold (\<lambda>(k, v). AList.update k v) ?ps (settings st),
                      currentFilename := path\<rparr>)"
    using assms by (rule loadSettings_unlocked_pairs)
  have c1: "fst (loadSettings st path fs) = Returns ()"
    by (simp add: ld)
  have c2: "settings (snd (loadSettings st path fs))
              = fold (\<lambda>(k, v). AList.update k v) ?ps (settings st)"
    by (simp add: ld)
  have c3: "\<forall>ps k v ps'. ?ps = ps @ (k, v) # ps' \<and> k \<notin> fst ` set ps'
              \<longrightarrow> map_of (settings (snd (loadSettings st path fs))) k = Some v"
  proof (intro allI impI, elim conjE)
    fix ps k v ps'
    assume ps: "?ps = ps @ (k, v) # ps'" and k: "k \<notin> fst ` set ps'"
    show "map_of (settings (snd (loadSettings st path fs))) k = Some v"
      unfolding c2 ps using k by (rule map_of_fold_update_last)
  qed
  have example:
    "spec_file_pairs (''a=1'' @ [CHR 0x0A] @ ''badline'' @ [CHR 0x0A] @ ''b=2=3'' @ [CHR 0x0A])
       = [(''a'', ''1''), (''b'', ''2=3'')]"
    by (simp add: spec_file_pairs_def spec_line_pair_def)
  have c4: "text = ''a=1'' @ [CHR 0x0A] @ ''badline'' @ [CHR 0x0A] @ ''b=2=3'' @ [CHR 0x0A]
              \<and> settings st = []
            \<longrightarrow> settings (snd (loadSettings st path fs)) = [(''a'', ''1''), (''b'', ''2=3'')]"
  proof (intro impI, elim conjE)
    assume "text = ''a=1'' @ [CHR 0x0A] @ ''badline'' @ [CHR 0x0A] @ ''b=2=3'' @ [CHR 0x0A]"
      and "settings st = []"
    then have "settings (snd (loadSettings st path fs))
                 = fold (\<lambda>(k, v). AList.update k v) [(''a'', ''1''), (''b'', ''2=3'')] []"
      unfolding c2 by (simp only: example)
    then show "settings (snd (loadSettings st path fs)) = [(''a'', ''1''), (''b'', ''2=3'')]"
      by simp
  qed
  from c1 c2 c3 c4 show ?thesis by (intro conjI)
qed

theorem loadSettings_reads_lines_witness:
  "\<not> mutex getInstance
   \<and> contents \<lparr>contents = [''f'' \<mapsto> ''a=1'' @ [CHR 0x0A] @ ''badline'' @ [CHR 0x0A] @ ''b=2=3'' @ [CHR 0x0A]],
                writable = (\<lambda>f. True)\<rparr> ''f''
       = Some (''a=1'' @ [CHR 0x0A] @ ''badline'' @ [CHR 0x0A] @ ''b=2=3'' @ [CHR 0x0A])
   \<and> settings getInstance = []
   \<and> settings (snd (loadSettings getInstance ''f''
        \<lparr>contents = [''f'' \<mapsto> ''a=1'' @ [CHR 0x0A] @ ''badline'' @ [CHR 0x0A] @ ''b=2=3'' @ [CHR 0x0A]],
          writable = (\<lambda>f. True)\<rparr>)) = [(''a'', ''1''), (''b'', ''2=3'')]"
  using loadSettings_reads_lines
    [of getInstance
        "\<lparr>contents = [''f'' \<mapsto> ''a=1'' @ [CHR 0x0A] @ ''badline'' @ [CHR 0x0A] @ ''b=2=3'' @ [CHR 0x0A]],
          writable = (\<lambda>f. True)\<rparr>" "''f''"
        "''a=1'' @ [CHR 0x0A] @ ''badline'' @ [CHR 0x0A] @ ''b=2=3'' @ [CHR 0x0A]"]
  by (simp add: getInstance_def spec_file_pairs_def spec_line_pair_def)

subsection \<open>C6: reading a value as a bool\<close>



subsection \<open>C7: a call that throws leaves the object as it was\<close>

text \<open>
  C7. Whenever \<^verbatim>\<open>getValue\<close>, \<^verbatim>\<open>getValueAs\<close> (for \<^verbatim>\<open>int\<close>, \<^verbatim>\<open>double\<close>, \<^verbatim>\<open>bool\<close>),
  \<^verbatim>\<open>loadSettings\<close>, \<^verbatim>\<open>saveSettingsAs\<close> or \<^verbatim>\<open>saveSettings\<close> throws, the object after
  the call is the object before it: the mapping and the current file name (and the
  mutex) are unchanged. \<^verbatim>\<open>setValue\<close> and \<^verbatim>\<open>setValueAs<bool>\<close> never throw;
  \<^verbatim>\<open>createFileIfNotExists\<close> reads and writes no member of the object. A
  \<^verbatim>\<open>loadSettings\<close> whose file does not open throws the error for that file and
  changes nothing.
\<close>

theorem errors_leave_state_unchanged:
  "(fst (getValue st key) = Throws e \<longrightarrow> snd (getValue st key) = st)
   \<and> (fst (getValueAs_int st key) = Throws e \<longrightarrow> snd (getValueAs_int st key) = st)
   \<and> (fst (getValueAs_double stod st key) = Throws e
        \<longrightarrow> snd (getValueAs_double stod st key) = st)
   \<and> (fst (getValueAs_bool st key) = Throws e \<longrightarrow> snd (getValueAs_bool st key) = st)
   \<and> (fst (loadSettings st path fs) = Throws e \<longrightarrow> snd (loadSettings st path fs) = st)
   \<and> (fst (saveSettingsAs st path fs) = Throws e \<longrightarrow> snd (saveSettingsAs st path fs) = st)
   \<and> (fst (saveSettings st fs) = Throws e \<longrightarrow> snd (saveSettings st fs) = st)
   \<and> fst (setValue st key v) \<noteq> Throws e
   \<and> fst (setValueAs_bool st key b) \<noteq> Throws e
   \<and> (\<not> mutex st \<and> contents fs path = None
        \<longrightarrow> loadSettings st path fs = (Throws (IOError path), st))"
  by (simp add: getValue_Throws getValueAs_int_Throws getValueAs_double_Throws
      getValueAs_bool_Throws loadSettings_Throws saveSettingsAs_Throws saveSettings_Throws
      setValue_no_Throws setValueAs_bool_def loadSettings_unlocked)

theorem errors_leave_state_unchanged_witness:
  "fst (getValue (getInstance\<lparr>settings := [(''n'', ''abc'')]\<rparr>) ''k'') = Throws (NotFoundError ''k'')
   \<and> snd (getValue (getInstance\<lparr>settings := [(''n'', ''abc'')]\<rparr>) ''k'')
       = getInstance\<lparr>settings := [(''n'', ''abc'')]\<rparr>
   \<and> fst (getValueAs_int (getInstance\<lparr>settings := [(''n'', ''abc'')]\<rparr>) ''n'') = Throws invalid_argument
   \<and> snd (getValueAs_int (getInstance\<lparr>settings := [(''n'', ''abc'')]\<rparr>) ''n'')
       = getInstance\<lparr>settings := [(''n'', ''abc'')]\<rparr>
   \<and> contents \<lparr>contents = Map.empty, writable = (=) ''q''\<rparr> ''p'' = None
   \<and> loadSettings (getInstance\<lparr>settings := [(''n'', ''abc'')]\<rparr>) ''p''
         \<lparr>contents = Map.empty, writable = (=) ''q''\<rparr>
       = (Throws (IOError ''p''), getInstance\<lparr>settings := [(''n'', ''abc'')]\<rparr>)
   \<and> fst (saveSettingsAs (getInstance\<lparr>settings := [(''n'', ''abc'')]\<rparr>) ''p''
         \<lparr>contents = Map.empty, writable = (=) ''q''\<rparr>) = Throws (IOError ''p'')
   \<and> snd (saveSettingsAs (getInstance\<lparr>settings := [(''n'', ''abc'')]\<rparr>) ''p''
         \<lparr>contents = Map.empty, writable = (=) ''q''\<rparr>) = getInstance\<lparr>settings := [(''n'', ''abc'')]\<rparr>
   \<and> fst (saveSettings (getInstance\<lparr>settings := [(''n'', ''abc'')]\<rparr>)
         \<lparr>contents = Map.empty, writable = (=) ''q''\<rparr>) = Throws StateError
   \<and> snd (saveSettings (getInstance\<lparr>settings := [(''n'', ''abc'')]\<rparr>)
         \<lparr>contents = Map.empty, writable = (=) ''q''\<rparr>) = getInstance\<lparr>settings := [(''n'', ''abc'')]\<rparr>"
  using errors_leave_state_unchanged
    [of "getInstance\<lparr>settings := [(''n'', ''abc'')]\<rparr>" "''k''" "NotFoundError ''k''" _ "''p''"
        "\<lparr>contents = Map.empty, writable = (=) ''q''\<rparr>"]
    errors_leave_state_unchanged
    [of "getInstance\<lparr>settings := [(''n'', ''abc'')]\<rparr>" "''n''" "invalid_argument" _ "''p''"
        "\<lparr>contents = Map.empty, writable = (=) ''q''\<rparr>"]
  by (simp add: getInstance_def getValue_def getValueAs_int_def lock_guard_def NotFoundError_def
      stoi_def isspace_def isdigit_def saveSettingsAs_def saveSettings_def IOError_def
      StateError_def loadSettings_def)

subsection \<open>C8: saveSettingsAs changes nothing in memory, and the saveSettings after it\<close>

text \<open>
  C8. The claim has two parts. The first, that a \<^verbatim>\<open>saveSettingsAs(p)\<close> that returns
  changes neither the mapping nor the current file name, holds: it is lemma
  \<open>saveSettingsAs_keeps_object\<close>. The second, that a \<^verbatim>\<open>saveSettings()\<close> after it acts
  on the file of the last \<^verbatim>\<open>loadSettings\<close>, is what the docstring of line 123 promises
  ("Saves the current settings to the last loaded file") and what line 132 sets out to
  do, and it does not come about: \<^verbatim>\<open>saveSettings\<close> holds \<^verbatim>\<open>mutex_\<close> from line 128 when
  it calls \<^verbatim>\<open>saveSettingsAs\<close>, whose line 141 locks the same \<^verbatim>\<open>std::mutex\<close> again. After
  \<^verbatim>\<open>loadSettings("q")\<close>, \<^verbatim>\<open>setValue("a", "2")\<close> and \<^verbatim>\<open>saveSettingsAs("p")\<close>, the current
  file name is still \<^verbatim>\<open>q\<close>, \<^verbatim>\<open>p\<close> holds the new text, and \<^verbatim>\<open>saveSettings()\<close> ends in
  \<open>Deadlock\<close> with the mutex held: it writes neither \<^verbatim>\<open>q\<close> nor \<^verbatim>\<open>p\<close>.
\<close>

theorem saveSettings_after_saveSettingsAs_deadlocks:
  "loadSettings getInstance ''q''
       \<lparr>contents = [''q'' \<mapsto> ''a=1'' @ [CHR 0x0A]], writable = (\<lambda>f. True)\<rparr>
     = (Returns (), \<lparr>settings = [(''a'', ''1'')], mutex = False, currentFilename = ''q''\<rparr>)
   \<and> setValue \<lparr>settings = [(''a'', ''1'')], mutex = False, currentFilename = ''q''\<rparr> ''a'' ''2''
     = (Returns (), \<lparr>settings = [(''a'', ''2'')], mutex = False, currentFilename = ''q''\<rparr>)
   \<and> saveSettingsAs \<lparr>settings = [(''a'', ''2'')], mutex = False, currentFilename = ''q''\<rparr> ''p''
       \<lparr>contents = [''q'' \<mapsto> ''a=1'' @ [CHR 0x0A]], writable = (\<lambda>f. True)\<rparr>
     = (Returns \<lparr>contents = [''q'' \<mapsto> ''a=1'' @ [CHR 0x0A], ''p'' \<mapsto> ''a=2'' @ [CHR 0x0A]],
                 writable = (\<lambda>f. True)\<rparr>,
        \<lparr>settings = [(''a'', ''2'')], mutex = False, currentFilename = ''q''\<rparr>)
   \<and> saveSettings \<lparr>settings = [(''a'', ''2'')], mutex = False, currentFilename = ''q''\<rparr>
       \<lparr>contents = [''q'' \<mapsto> ''a=1'' @ [CHR 0x0A], ''p'' \<mapsto> ''a=2'' @ [CHR 0x0A]],
        writable = (\<lambda>f. True)\<rparr>
     = (Deadlock, \<lparr>settings = [(''a'', ''2'')], mutex = True, currentFilename = ''q''\<rparr>)"
  by (simp add: loadSettings_def setValue_def saveSettingsAs_def saveSettings_def lock_guard_def
      getInstance_def loadSettings_loop.simps loadSettings_body_def getline_def istream_of_def)

subsection \<open>C9: a value that was set is the value read\<close>

text \<open>
  C9. For every non-empty key \<open>k\<close> and every string \<open>v\<close>, \<^verbatim>\<open>setValue(k, v)\<close> returns
  without an exception and \<^verbatim>\<open>getValue(k)\<close> then returns \<open>v\<close>. The mapping after the call
  is the mapping before it with \<open>k\<close> bound to \<open>v\<close>: the entry is inserted when absent,
  overwritten when present, and every other key keeps its value. The current file
  name is not touched.
\<close>

theorem setValue_then_getValue:
  assumes "\<not> mutex st" and "k \<noteq> []"
  shows "fst (setValue st k v) = Returns ()
       \<and> getValue (snd (setValue st k v)) k = (Returns v, snd (setValue st k v))
       \<and> map_of (settings (snd (setValue st k v))) = (map_of (settings st))(k \<mapsto> v)
       \<and> (\<forall>k'. k' \<noteq> k \<longrightarrow>
             map_of (settings (snd (setValue st k v))) k' = map_of (settings st) k')
       \<and> currentFilename (snd (setValue st k v)) = currentFilename st"
  using assms by (simp add: setValue_unlocked getValue_unlocked AList.update_conv')

theorem setValue_then_getValue_witness:
  "\<not> mutex (getInstance\<lparr>settings := [(''a'', ''0''), (''b'', ''2'')]\<rparr>) \<and> ''a'' \<noteq> []
   \<and> fst (setValue (getInstance\<lparr>settings := [(''a'', ''0''), (''b'', ''2'')]\<rparr>) ''a'' ''1'') = Returns ()
   \<and> fst (getValue (snd (setValue (getInstance\<lparr>settings := [(''a'', ''0''), (''b'', ''2'')]\<rparr>) ''a'' ''1'')) ''a'')
       = Returns ''1''
   \<and> fst (getValue (snd (setValue (getInstance\<lparr>settings := [(''a'', ''0''), (''b'', ''2'')]\<rparr>) ''a'' ''1'')) ''b'')
       = Returns ''2''"
  using setValue_then_getValue [of "getInstance\<lparr>settings := [(''a'', ''0''), (''b'', ''2'')]\<rparr>" "''a''" "''1''"]
  by (simp add: getInstance_def getValue_def setValue_def lock_guard_def)

subsection \<open>C10: the empty string as a key\<close>

text \<open>
  C10 as stated says that on load every line that begins with \<^verbatim>\<open>=\<close> yields an entry
  with the empty key. It fails for the line that is \<^verbatim>\<open>=\<close> alone: nothing follows the
  \<^verbatim>\<open>=\<close>, so the second \<^verbatim>\<open>getline\<close> fails and the line is dropped.
\<close>

theorem empty_key_bare_line_counterexample:
  "CHR ''='' # [] \<in> set (spec_lines (''='' @ [CHR 0x0A]))
   \<and> fst (loadSettings getInstance ''f''
         \<lparr>contents = [''f'' \<mapsto> ''='' @ [CHR 0x0A]], writable = (\<lambda>f. True)\<rparr>) = Returns ()
   \<and> settings (snd (loadSettings getInstance ''f''
         \<lparr>contents = [''f'' \<mapsto> ''='' @ [CHR 0x0A]], writable = (\<lambda>f. True)\<rparr>)) = []
   \<and> fst (getValue (snd (loadSettings getInstance ''f''
         \<lparr>contents = [''f'' \<mapsto> ''='' @ [CHR 0x0A]], writable = (\<lambda>f. True)\<rparr>)) [])
       = Throws (NotFoundError [])"
  by (simp add: loadSettings_def getValue_def lock_guard_def getInstance_def NotFoundError_def
      loadSettings_loop.simps loadSettings_body_def getline_def istream_of_def)

text \<open>
  C10, amended. The empty string is a key like any other: \<^verbatim>\<open>setValue("", w)\<close> stores an
  entry that \<^verbatim>\<open>getValue("")\<close> returns. On load, a line that is \<^verbatim>\<open>=\<close> followed by at
  least one character \<open>v\<close> is not dropped: the loop body stores \<open>v\<close> under the empty
  key, the loaded mapping has the empty key with a non-empty value, and that value is
  \<open>v\<close> when the line is the only line of the file.
\<close>

theorem empty_key_is_legal:
  assumes "\<not> mutex st" and "contents fs path = Some text"
    and "CHR ''='' # v \<in> set (spec_lines text)" and "v \<noteq> []"
  shows "getValue (snd (setValue st [] w)) [] = (Returns w, snd (setValue st [] w))
       \<and> loadSettings_body (CHR ''='' # v) m = AList.update [] v m
       \<and> fst (loadSettings st path fs) = Returns ()
       \<and> (\<exists>v'. v' \<noteq> [] \<and> getValue (snd (loadSettings st path fs)) []
                   = (Returns v', snd (loadSettings st path fs)))
       \<and> (spec_lines text = [CHR ''='' # v, []]
            \<longrightarrow> map_of (settings (snd (loadSettings st path fs))) [] = Some v)"
proof -
  let ?st' = "snd (loadSettings st path fs)"
  let ?ps = "spec_file_pairs text"
  have set_get: "getValue (snd (setValue st [] w)) [] = (Returns w, snd (setValue st [] w))"
    using assms(1) by (simp add: setValue_unlocked getValue_unlocked AList.update_conv')
  from assms(3) have nl: "CHR 0x0A \<notin> set (CHR ''='' # v)"
    by (rule spec_lines_free_of_newline)
  have body: "loadSettings_body (CHR ''='' # v) m = AList.update [] v m"
    using nl assms(4) by (simp add: loadSettings_body_eq spec_line_pair_leading_eq del: set_simps)
  have ld: "loadSettings st path fs =
      (Returns (), st\<lparr>settings := fold (\<lambda>(k, v). AList.update k v) ?ps (settings st),
                      currentFilename := path\<rparr>)"
    using assms(1,2) by (rule loadSettings_unlocked_pairs)
  have m: "map_of (settings ?st') = map_of (settings st) ++ map_of (rev ?ps)"
    by (simp add: ld map_of_fold_update)
  have "([], v) \<in> set ?ps"
    unfolding spec_file_pairs_def
    using assms(3) spec_line_pair_leading_eq [OF assms(4)] by (rule map_filter_member)
  then have "[] \<in> fst ` set (rev ?ps)" by force
  then obtain v' where v': "map_of (rev ?ps) [] = Some v'"
    by (metis domD dom_map_of_conv_image_fst)
  then have "([], v') \<in> set ?ps" using map_of_SomeD by fastforce
  then obtain l where "l \<in> set (spec_lines text)" "spec_line_pair l = Some ([], v')"
    by (auto simp: spec_file_pairs_def List.map_filter_def)
  then have "v' \<noteq> []" by (auto simp: spec_line_pair_def Let_def split: if_splits)
  moreover have "getValue ?st' [] = (Returns v', ?st')"
    using v' assms(1) by (simp add: ld getValue_unlocked map_of_fold_update)
  ultimately have ex: "\<exists>v'. v' \<noteq> [] \<and> getValue ?st' [] = (Returns v', ?st')" by blast
  have single: "map_of (settings ?st') [] = Some v" if "spec_lines text = [CHR ''='' # v, []]"
    using that assms(4)
    by (simp add: m spec_file_pairs_def List.map_filter_def spec_line_pair_leading_eq
        spec_line_pair_def)
  from set_get body ld ex single show ?thesis by simp
qed

theorem empty_key_is_legal_witness:
  "\<not> mutex getInstance
   \<and> contents \<lparr>contents = [''f'' \<mapsto> ''=v'' @ [CHR 0x0A]], writable = (\<lambda>f. True)\<rparr> ''f''
       = Some (''=v'' @ [CHR 0x0A])
   \<and> ''=v'' \<in> set (spec_lines (''=v'' @ [CHR 0x0A])) \<and> ''v'' \<noteq> []
   \<and> getValue (snd (setValue getInstance [] ''w'')) [] = (Returns ''w'', snd (setValue getInstance [] ''w''))
   \<and> map_of (settings (snd (loadSettings getInstance ''f''
         \<lparr>contents = [''f'' \<mapsto> ''=v'' @ [CHR 0x0A]], writable = (\<lambda>f. True)\<rparr>))) [] = Some ''v''"
  using empty_key_is_legal
    [of getInstance "\<lparr>contents = [''f'' \<mapsto> ''=v'' @ [CHR 0x0A]], writable = (\<lambda>f. True)\<rparr>" "''f''"
        "''=v'' @ [CHR 0x0A]" "''v''" "''w''"]
  by (simp add: getInstance_def)

end
